theory Spec2Isabelle
  imports Complex_Main "HOL-Library.Sublist" "HOL-Library.Log_Nat" "HOL-Library.Option_ord"
begin

section \<open>JavaScript strings\<close>

text \<open>
  The server works on JavaScript strings. They are modelled as \<^typ>\<open>string\<close>, a list of
  characters with codes 0 to 255, read as the code units U+0000 to U+00FF. On that range the
  definitions below are what \<^verbatim>\<open>\s\<close>, \<^verbatim>\<open>trim\<close>, \<^verbatim>\<open>toLowerCase\<close>,
  \<^verbatim>\<open>includes\<close>, \<^verbatim>\<open>endsWith\<close> and \<^verbatim>\<open>split\<close> do.
\<close>

definition nl :: string where
  "nl = [CHR 0x0A]"

definition dq :: string where
  "dq = [CHR 0x22]"

text \<open>The class \<^verbatim>\<open>\s\<close> of a regular expression, which is also what \<^verbatim>\<open>trim\<close> strips.\<close>

definition is_space :: "char \<Rightarrow> bool" where
  "is_space c = (c = CHR 0x09 \<or> c = CHR 0x0A \<or> c = CHR 0x0B \<or> c = CHR 0x0C
     \<or> c = CHR 0x0D \<or> c = CHR 0x20 \<or> c = CHR 0xA0)"

definition is_upper :: "char \<Rightarrow> bool" where
  "is_upper c = (65 \<le> (of_char c :: nat) \<and> (of_char c :: nat) \<le> 90)"

definition lower_char :: "char \<Rightarrow> char" where
  "lower_char c =
     (let n = (of_char c :: nat)
      in if (65 \<le> n \<and> n \<le> 90) \<or> (192 \<le> n \<and> n \<le> 222 \<and> n \<noteq> 215)
         then char_of (n + 32) else c)"

definition toLowerCase :: "string \<Rightarrow> string" where
  "toLowerCase s = map lower_char s"

definition trim :: "string \<Rightarrow> string" where
  "trim s = rev (dropWhile is_space (rev (dropWhile is_space s)))"

text \<open>\<^verbatim>\<open>s.includes(sub)\<close> and \<^verbatim>\<open>s.endsWith(suf)\<close>.\<close>

definition str_includes :: "string \<Rightarrow> string \<Rightarrow> bool" where
  "str_includes s sub = sublist sub s"

definition endsWith :: "string \<Rightarrow> string \<Rightarrow> bool" where
  "endsWith s suf = suffix suf s"

text \<open>\<^verbatim>\<open>xs.join(sep)\<close>.\<close>

fun join :: "string \<Rightarrow> string list \<Rightarrow> string" where
  "join sep [] = []"
| "join sep [x] = x"
| "join sep (x # y # ys) = x @ sep @ join sep (y # ys)"

text \<open>
  \<^verbatim>\<open>s.split(/\s+/)\<close>: the pieces between maximal runs of white space. The piece being
  read is kept reversed in \<open>acc\<close>.
\<close>

function split_spaces :: "string \<Rightarrow> string \<Rightarrow> string list" where
  "split_spaces acc [] = [rev acc]"
| "split_spaces acc (c # cs) =
     (if is_space c then rev acc # split_spaces [] (dropWhile is_space cs)
      else split_spaces (c # acc) cs)"
  by pat_completeness auto
termination
  by (relation "measure (\<lambda>(acc, s). length s)")
     (auto simp: less_Suc_eq_le length_dropWhile_le)

text \<open>
  \<^verbatim>\<open>s.split(/\n\n+/)\<close>: the pieces between maximal runs of two or more line feeds. A
  single line feed stays inside its piece.
\<close>

function split_blank_lines :: "string \<Rightarrow> string \<Rightarrow> string list" where
  "split_blank_lines acc [] = [rev acc]"
| "split_blank_lines acc [c] = [rev (c # acc)]"
| "split_blank_lines acc (c # d # cs) =
     (if c = CHR 0x0A \<and> d = CHR 0x0A
      then rev acc # split_blank_lines [] (dropWhile (\<lambda>x. x = CHR 0x0A) cs)
      else split_blank_lines (c # acc) (d # cs))"
  by pat_completeness auto
termination
  by (relation "measure (\<lambda>(acc, s). length s)")
     (auto simp: less_Suc_eq_le intro: le_trans [OF length_dropWhile_le])

text \<open>The decimal digits of a number, as \<^verbatim>\<open>Date.now() + '-'\<close> writes them.\<close>

definition digit :: "nat \<Rightarrow> char" where
  "digit d = ''0123456789'' ! d"

fun dec :: "nat \<Rightarrow> string" where
  "dec n = (if n < 10 then [digit n] else dec (n div 10) @ [digit (n mod 10)])"

declare dec.simps [simp del]

section \<open>The document store\<close>

text \<open>
  \<^verbatim>\<open>documentStore\<close> is an object used as a dictionary from ids to records. Every id has
  a \<^verbatim>\<open>-\<close> in it, so none is an array index and the object enumerates its keys in the
  order of their first insertion: an association list, where writing an existing key
  replaces the value in place and writing a new key appends.
\<close>

record document_record =
  doc_id :: string
  doc_name :: string
  doc_text :: string
  uploadDate :: nat

type_synonym store = "(string \<times> document_record) list"

fun store_put :: "string \<Rightarrow> document_record \<Rightarrow> store \<Rightarrow> store" where
  "store_put k v [] = [(k, v)]"
| "store_put k v (e # es) = (if fst e = k then (k, v) # es else e # store_put k v es)"

definition store_delete :: "string \<Rightarrow> store \<Rightarrow> store" where
  "store_delete k st = filter (\<lambda>e. fst e \<noteq> k) st"

section \<open>Ingestion\<close>

text \<open>What an extractor does with a file: it throws, or it returns the text.\<close>

datatype extraction = ExtractFails | Extracted string

text \<open>
  \<^verbatim>\<open>path.extname\<close> on a file name without directory part: from the last dot on, and
  empty when there is no dot, when the only dot is the first character, and for \<^verbatim>\<open>..\<close>.
\<close>

fun last_dot :: "string \<Rightarrow> nat option" where
  "last_dot [] = None"
| "last_dot (c # cs) =
     (case last_dot cs of
        Some i \<Rightarrow> Some (Suc i)
      | None \<Rightarrow> if c = CHR ''.'' then Some 0 else None)"

definition extname :: "string \<Rightarrow> string" where
  "extname fileName =
     (case last_dot fileName of
        None \<Rightarrow> []
      | Some i \<Rightarrow> if i = 0 \<or> fileName = ''..'' then [] else drop i fileName)"

definition placeholder :: "string \<Rightarrow> string" where
  "placeholder fileName = ''[Empty or unreadable document: '' @ fileName @ '']''"

definition docId_of :: "nat \<Rightarrow> string \<Rightarrow> string" where
  "docId_of now fileName = dec now @ ''-'' @ fileName"

text \<open>
  \<^verbatim>\<open>processDocument\<close>. \<open>now\<close> is what \<^verbatim>\<open>Date.now()\<close> returns when the id is made,
  \<open>date\<close> the value of \<^verbatim>\<open>new Date()\<close>, \<open>file_exists\<close> the answer of
  \<^verbatim>\<open>fs.existsSync\<close>, \<open>ex\<close> the outcome of the extractor the extension selects. A file
  that is missing or unsupported, or whose extraction throws, leaves the store as it is.
\<close>

definition processDocument ::
  "nat \<Rightarrow> nat \<Rightarrow> string \<Rightarrow> bool \<Rightarrow> extraction \<Rightarrow> store \<Rightarrow> store" where
  "processDocument now date fileName file_exists ex st =
     (if \<not> file_exists then st
      else
        let fileExt = toLowerCase (extname fileName)
        in if fileExt = ''.pdf'' \<or> fileExt \<in> set [''.doc'', ''.docx''] then
             (case ex of
                ExtractFails \<Rightarrow> st
              | Extracted raw \<Rightarrow>
                  let text = (if raw = [] \<or> trim raw = []
                              then placeholder fileName else raw);
                      docId = docId_of now fileName
                  in store_put docId
                       \<lparr>doc_id = docId, doc_name = fileName, doc_text = text,
                        uploadDate = date\<rparr> st)
           else st)"

text \<open>
  The handler of \<^verbatim>\<open>POST /api/upload\<close>, one file after the other. An extraction that
  throws ends the request with status 500; the files stored before it stay stored.
\<close>

record upload_file =
  mimetype :: string
  originalname :: string
  extracted :: extraction
  id_time :: nat
  stored_date :: nat

definition mime_pdf :: string where
  "mime_pdf = ''application/pdf''"

definition mime_docx :: string where
  "mime_docx = ''application/vnd.openxmlformats-officedocument.wordprocessingml.document''"

definition mime_doc :: string where
  "mime_doc = ''application/msword''"

fun upload :: "upload_file list \<Rightarrow> store \<Rightarrow> nat \<times> store" where
  "upload [] st = (200, st)"
| "upload (f # fs) st =
     (let r = (if mimetype f = mime_pdf \<or> mimetype f = mime_docx \<or> mimetype f = mime_doc
               then extracted f else Extracted [])
      in case r of
           ExtractFails \<Rightarrow> (500, st)
         | Extracted text \<Rightarrow>
             let docId = docId_of (id_time f) (originalname f)
             in upload fs
                  (store_put docId
                     \<lparr>doc_id = docId, doc_name = originalname f, doc_text = text,
                      uploadDate = stored_date f\<rparr> st))"

text \<open>
  One event of \<^verbatim>\<open>fs.watch\<close>, after its settle delay. \<open>present\<close> is what
  \<^verbatim>\<open>fs.existsSync\<close> answers in the callback, \<open>still_present\<close> what it answers inside
  \<^verbatim>\<open>processDocument\<close>. The deletion branch is \<open>removeByFileName\<close>.
\<close>

definition removeByFileName :: "string \<Rightarrow> store \<Rightarrow> store" where
  "removeByFileName filename st =
     (case find (\<lambda>key. str_includes key filename) (map fst st) of
        Some docId \<Rightarrow> store_delete docId st
      | None \<Rightarrow> st)"

definition supported_name :: "string \<Rightarrow> bool" where
  "supported_name filename =
     (endsWith (toLowerCase filename) ''.pdf'' \<or> endsWith (toLowerCase filename) ''.doc''
      \<or> endsWith (toLowerCase filename) ''.docx'')"

record watch_event =
  eventType :: string
  filename :: "string option"
  present :: bool
  still_present :: bool
  event_now :: nat
  event_date :: nat
  event_extracted :: extraction

definition watch_callback :: "watch_event \<Rightarrow> store \<Rightarrow> store" where
  "watch_callback ev st =
     (case filename ev of
        None \<Rightarrow> st
      | Some fname \<Rightarrow>
          if eventType ev = ''rename'' \<and> fname \<noteq> [] then
            if present ev \<and> supported_name fname then
              processDocument (event_now ev) (event_date ev) fname (still_present ev)
                (event_extracted ev) st
            else if \<not> present ev then removeByFileName fname st
            else st
          else st)"

section \<open>The chat request\<close>

subsection \<open>Mention parsing\<close>

text \<open>
  \<^verbatim>\<open>message.match(/@([^\s]+)/)\<close>: the leftmost \<^verbatim>\<open>@\<close> that is followed by a character
  other than white space, with the longest run of such characters after it. The result is
  the text before the match, the group and the text after the match.
\<close>

fun mentionMatch :: "string \<Rightarrow> (string \<times> string \<times> string) option" where
  "mentionMatch [] = None"
| "mentionMatch (c # cs) =
     (if c = CHR ''@'' \<and> takeWhile (\<lambda>x. \<not> is_space x) cs \<noteq> []
      then Some ([], takeWhile (\<lambda>x. \<not> is_space x) cs, dropWhile (\<lambda>x. \<not> is_space x) cs)
      else map_option (\<lambda>(before, token, after). (c # before, token, after))
             (mentionMatch cs))"

definition targetDocumentName :: "string \<Rightarrow> string option" where
  "targetDocumentName message = map_option (\<lambda>(before, token, after). token) (mentionMatch message)"

text \<open>\<^verbatim>\<open>message.replace(documentMentionRegex, '').trim()\<close> when there is a match.\<close>

definition cleanedMessage :: "string \<Rightarrow> string" where
  "cleanedMessage message =
     (case mentionMatch message of
        None \<Rightarrow> message
      | Some (before, token, after) \<Rightarrow> trim (before @ after))"

subsection \<open>Context\<close>

text \<open>
  The entries whose name contains the target, lower case on both sides, in the order of
  the store. The source filters \<^verbatim>\<open>Object.keys(documentStore)\<close> and reads
  \<^verbatim>\<open>documentStore[docId]\<close>, which is the entry of that key.
\<close>

definition matchingDocs :: "store \<Rightarrow> string \<Rightarrow> store" where
  "matchingDocs st target =
     filter (\<lambda>e. str_includes (toLowerCase (doc_name (snd e))) (toLowerCase target)) st"

definition matchingDocIds :: "store \<Rightarrow> string \<Rightarrow> string list" where
  "matchingDocIds st target = map fst (matchingDocs st target)"

definition all_texts :: "store \<Rightarrow> string" where
  "all_texts st = join (nl @ nl) (map (\<lambda>e. doc_text (snd e)) st)"

definition documentContext :: "store \<Rightarrow> string option \<Rightarrow> string" where
  "documentContext st target =
     (case target of
        Some t \<Rightarrow>
          (case matchingDocs st t of
             e # _ \<Rightarrow> doc_text (snd e)
           | [] \<Rightarrow> all_texts st)
      | None \<Rightarrow> all_texts st)"

subsection \<open>Answers and prompts\<close>

definition no_documents_answer :: string where
  "no_documents_answer =
     ''No documents have been uploaded yet. Please upload some documents first.''"

definition not_found_answer :: "string \<Rightarrow> string" where
  "not_found_answer target =
     ''I couldn'' @ [CHR 0x27] @ ''t find any document matching '' @ dq @ target @ dq
     @ ''. Please check the document name and try again.''"

definition api_error_answer :: string where
  "api_error_answer = ''API configuration error. Please contact support.''"

definition no_match_answer :: string where
  "no_match_answer =
     ''I couldn'' @ [CHR 0x27] @ ''t find information in the documents that directly matches ''
     @ ''your query. Please try rephrasing your question or ask about a different topic ''
     @ ''covered in the documents.''"

definition systemMessage :: string where
  "systemMessage =
     ''You are a helpful assistant that answers questions based on document content. ''
     @ ''Your task is to provide clear, accurate responses based solely on the information ''
     @ ''in the provided documents.''"

text \<open>
  The user prompt. The remark after the context stands inside the template literal of the
  source, so it is part of the prompt.
\<close>

definition userMessage :: "string \<Rightarrow> string \<Rightarrow> string" where
  "userMessage context question =
     ''I have the following document content:'' @ nl
     @ take 1500 context
     @ '' //User Role: Provides truncated document context (1,500 chars) and the question.''
     @ nl @ nl @ ''My question is: '' @ question @ nl @ nl
     @ ''Please answer based only on the information in these documents.''"

definition generated_note :: string where
  "generated_note =
     nl @ nl @ ''This response was generated using Groq'' @ [CHR 0x27]
     @ ''s AI based on information from your documents.''"

subsection \<open>The fallback search\<close>

text \<open>
  A scored paragraph. The field \<open>score\<close> is the exact rational value of the expression
  that the source evaluates; the double that the source holds for it, and by which it
  ranks, is \<open>machine_score\<close> below.
\<close>

record passage =
  ptext :: string
  score :: rat
  source :: string

definition keywords_of :: "string \<Rightarrow> string list" where
  "keywords_of question = filter (\<lambda>word. length word > 3) (split_spaces [] (toLowerCase question))"

definition paragraphs :: "string \<Rightarrow> string list" where
  "paragraphs txt = filter (\<lambda>p. length p > 30) (map trim (split_blank_lines [] txt))"

text \<open>\<^verbatim>\<open>/[A-Z][A-Z]/.test(paragraph)\<close>.\<close>

fun has_upper_pair :: "string \<Rightarrow> bool" where
  "has_upper_pair (a # b # cs) = ((is_upper a \<and> is_upper b) \<or> has_upper_pair (b # cs))"
| "has_upper_pair _ = False"

definition keywordMatches :: "string list \<Rightarrow> string \<Rightarrow> string list" where
  "keywordMatches kws paragraph =
     filter (\<lambda>keyword. str_includes (toLowerCase paragraph) keyword) kws"

text \<open>
  The body of the loop over the paragraphs of one document: nothing for a paragraph
  without a match, else the passage with its score, built up in the steps of the source.
\<close>

definition score_paragraph :: "string list \<Rightarrow> string \<Rightarrow> string \<Rightarrow> passage option" where
  "score_paragraph kws src paragraph =
     (let matchScore = length (keywordMatches kws paragraph)
      in if matchScore > 0 then
           let r0 = (of_nat matchScore :: rat);
               r1 = (if length (keywordMatches kws paragraph) > 1
                     then r0 + 2 ^ (length (keywordMatches kws paragraph) - 1) else r0);
               r2 = (if length (keywordMatches kws paragraph) > 1
                     then r1 + 500 / (of_nat (length paragraph) + 1) else r1);
               r3 = (if length paragraph < 200 \<and> length paragraph > 20
                        \<and> (CHR '':'' \<in> set paragraph \<or> has_upper_pair paragraph)
                     then r2 + 2 else r2)
           in Some \<lparr>ptext = paragraph, score = r3, source = src\<rparr>
         else None)"

definition matchingParagraphs :: "store \<Rightarrow> string \<Rightarrow> passage list" where
  "matchingParagraphs st question =
     concat (map (\<lambda>e. List.map_filter (score_paragraph (keywords_of question) (doc_name (snd e)))
                        (paragraphs (doc_text (snd e)))) st)"

text \<open>
  Double precision. A finite double is a rational number; \<open>to_double\<close> is the double
  nearest to a rational, ties to the even significand: 53 bits from the binade of the
  value on, and the fixed spacing \<open>2 ^ - 1074\<close> below \<open>2 ^ - 1022\<close>. A result from
  \<open>2 ^ 1024\<close> on is \<open>Infinity\<close>. Only values above zero occur in the scores.
\<close>

definition pow2 :: "int \<Rightarrow> rat" where
  "pow2 e = (if 0 \<le> e then 2 ^ nat e else 1 / 2 ^ nat (- e))"

text \<open>The exponent \<open>e\<close> with \<open>2 ^ e \<le> x < 2 ^ (e + 1)\<close>, for \<open>x\<close> above zero.\<close>

definition binade :: "rat \<Rightarrow> int" where
  "binade x =
     (let d = bitlen (fst (quotient_of x)) - bitlen (snd (quotient_of x))
      in if pow2 d \<le> x then d else d - 1)"

definition round_even :: "rat \<Rightarrow> int" where
  "round_even x =
     (let f = \<lfloor>x\<rfloor>; r = x - of_int f
      in if r < 1 / 2 then f else if 1 / 2 < r then f + 1 else if even f then f else f + 1)"

definition to_double :: "rat \<Rightarrow> rat" where
  "to_double x =
     (if x \<le> 0 then 0
      else let ulp = pow2 (max (binade x) (- 1022) - 52)
           in of_int (round_even (x / ulp)) * ulp)"

datatype double = Finite rat | Infinity

definition round_double :: "rat \<Rightarrow> double" where
  "round_double x = (if pow2 1024 \<le> to_double x then Infinity else Finite (to_double x))"

fun add_double :: "double \<Rightarrow> double \<Rightarrow> double" where
  "add_double (Finite a) (Finite b) = round_double (a + b)"
| "add_double _ _ = Infinity"

text \<open>
  The value of \<^verbatim>\<open>relevanceScore\<close> as the source computes it, every operation rounded:
  the match count is an exact double, \<^verbatim>\<open>Math.pow(2, n - 1)\<close> is exact up to
  \<open>2 ^ 1023\<close> and \<open>Infinity\<close> beyond.
\<close>

definition machine_score :: "string list \<Rightarrow> string \<Rightarrow> double" where
  "machine_score kws paragraph =
     (let matchScore = length (keywordMatches kws paragraph);
          r0 = Finite (of_nat matchScore);
          r1 = (if length (keywordMatches kws paragraph) > 1
                then add_double r0 (round_double (2 ^ (length (keywordMatches kws paragraph) - 1)))
                else r0);
          r2 = (if length (keywordMatches kws paragraph) > 1
                then add_double r1 (round_double (500 / (of_nat (length paragraph) + 1)))
                else r1);
          r3 = (if length paragraph < 200 \<and> length paragraph > 20
                   \<and> (CHR '':'' \<in> set paragraph \<or> has_upper_pair paragraph)
                then add_double r2 (Finite 2) else r2)
      in r3)"

text \<open>
  \<^verbatim>\<open>sort((a, b) => b.score - a.score)\<close> puts the larger double first, \<open>Infinity\<close>
  before every finite one, and keeps the order of equal ones (two infinite scores give
  \<^verbatim>\<open>NaN\<close>, which the sort takes as equal). The insertion sort \<^const>\<open>sort_key\<close> is
  stable as well; its key is smaller for the larger score, \<open>None\<close> being the least key.
\<close>

definition descending_key :: "double \<Rightarrow> rat option" where
  "descending_key d = (case d of Infinity \<Rightarrow> None | Finite v \<Rightarrow> Some (- v))"

definition topResults :: "store \<Rightarrow> string \<Rightarrow> passage list" where
  "topResults st question =
     take 5 (sort_key (\<lambda>p. descending_key (machine_score (keywords_of question) (ptext p)))
               (matchingParagraphs st question))"

fun numbered :: "nat \<Rightarrow> passage list \<Rightarrow> string" where
  "numbered index [] = []"
| "numbered index (r # rs) =
     dec (index + 1) @ ''. From '' @ dq @ source r @ dq @ '': '' @ trim (ptext r) @ nl @ nl
     @ numbered (Suc index) rs"

text \<open>\<^verbatim>\<open>[...new Set(xs)]\<close>: every value once, at the place of its first occurrence.\<close>

definition uniqueSources :: "string list \<Rightarrow> string list" where
  "uniqueSources xs = foldl (\<lambda>seen x. if x \<in> set seen then seen else seen @ [x]) [] xs"

definition searchResponse :: "string \<Rightarrow> passage list \<Rightarrow> string" where
  "searchResponse question results =
     ''Based on your question about '' @ dq @ question @ dq
     @ '', I found these relevant sections:'' @ nl @ nl
     @ numbered 0 results
     @ ''Information was found in the following document(s): ''
     @ join '', '' (uniqueSources (map source results)) @ ''.'' @ nl @ nl
     @ ''If you need more specific details, please ask a more focused question.''"

definition fallback_search :: "store \<Rightarrow> string \<Rightarrow> string" where
  "fallback_search st question =
     (if topResults st question \<noteq> [] then searchResponse question (topResults st question)
      else no_match_answer)"

subsection \<open>The handler\<close>

text \<open>
  What the completion service does with a request: \<^verbatim>\<open>fetch\<close> throws, the status is not
  a success, the body is not of the expected shape, or the body carries the content.
\<close>

datatype completion = FetchThrows | NotOk | Malformed | Completed string

text \<open>What the session store does: an insert throws or returns; creating a chat throws,
  returns an error, or returns the new id.\<close>

datatype db_insert = InsertThrows | InsertReturns

datatype db_create = CreateThrows | CreateError | Created string

record db =
  insert_history :: db_insert
  create_chat :: db_create

text \<open>The response, and with it the prompts that were sent to the completion service.\<close>

record chat_outcome =
  status :: nat
  success :: bool
  answer :: string
  chatId_out :: "string option"
  completion_calls :: "(string \<times> string) list"

text \<open>
  The checks before the completion attempt, in the order of the source: the store is
  empty; a mention matches no document; the context is blank; the API key is missing.
  The result is the status and the answer of the check that ends the request.
\<close>

definition precondition_failure :: "bool \<Rightarrow> store \<Rightarrow> string \<Rightarrow> (nat \<times> string) option" where
  "precondition_failure api_key st message =
     (if length (map fst st) = 0 then Some (400, no_documents_answer)
      else
        case (case targetDocumentName message of
                Some t \<Rightarrow> if length (matchingDocIds st t) = 0
                          then Some (400, not_found_answer t) else None
              | None \<Rightarrow> None) of
          Some r \<Rightarrow> Some r
        | None \<Rightarrow>
            if documentContext st (targetDocumentName message) = []
               \<or> trim (documentContext st (targetDocumentName message)) = []
            then Some (400, no_documents_answer)
            else if \<not> api_key then Some (500, api_error_answer)
            else None)"

text \<open>
  Every path through the session store ends in status 200 with the answer; only the
  chat id differs. An empty or absent \<^verbatim>\<open>chatId\<close> creates a chat.
\<close>

definition persist :: "db \<Rightarrow> string option \<Rightarrow> string option" where
  "persist d chatId =
     (if chatId \<noteq> None \<and> chatId \<noteq> Some [] then chatId
      else case create_chat d of
             CreateThrows \<Rightarrow> None
           | CreateError \<Rightarrow> None
           | Created newChatId \<Rightarrow> Some newChatId)"

definition chat ::
  "bool \<Rightarrow> (string \<Rightarrow> string \<Rightarrow> completion) \<Rightarrow> db \<Rightarrow> store \<Rightarrow> string \<Rightarrow> string option
     \<Rightarrow> chat_outcome" where
  "chat api_key completion_service d st message chatId =
     (case precondition_failure api_key st message of
        Some (code, text) \<Rightarrow>
          \<lparr>status = code, success = False, answer = text, chatId_out = None,
           completion_calls = []\<rparr>
      | None \<Rightarrow>
          let context = documentContext st (targetDocumentName message);
              question = cleanedMessage message;
              prompt = userMessage context question;
              response = (case completion_service systemMessage prompt of
                            Completed content \<Rightarrow> trim content @ generated_note
                          | _ \<Rightarrow> fallback_search st question)
          in \<lparr>status = 200, success = True, answer = response,
              chatId_out = persist d chatId,
              completion_calls = [(systemMessage, prompt)]\<rparr>)"

section \<open>Notions of the specification\<close>

text \<open>
  An \<^verbatim>\<open>@token\<close> begins somewhere in the text: an \<^verbatim>\<open>@\<close> followed by a character
  that is not white space.
\<close>

fun has_at_token :: "string \<Rightarrow> bool" where
  "has_at_token (c # d # cs) = ((c = CHR ''@'' \<and> \<not> is_space d) \<or> has_at_token (d # cs))"
| "has_at_token _ = False"


section \<open>An example store\<close>

text \<open>
  Two documents whose names both contain \<^verbatim>\<open>report\<close>, ingested one millisecond apart.
\<close>

definition doc_report :: document_record where
  "doc_report = \<lparr>doc_id = ''1700000000000-Report.pdf'', doc_name = ''Report.pdf'',
     doc_text = ''The quarterly report covers revenue growth in detail.'',
     uploadDate = 1700000000000\<rparr>"

definition doc_report_v2 :: document_record where
  "doc_report_v2 = \<lparr>doc_id = ''1700000000001-report_v2.docx'', doc_name = ''report_v2.docx'',
     doc_text = ''Latency and throughput are measured for every release.'',
     uploadDate = 1700000000001\<rparr>"

definition two_reports :: store where
  "two_reports = [(''1700000000000-Report.pdf'', doc_report),
                  (''1700000000001-report_v2.docx'', doc_report_v2)]"

text \<open>A document whose second paragraph begins after 1602 characters.\<close>

definition long_doc :: document_record where
  "long_doc = \<lparr>doc_id = ''1700000000002-manual.pdf'', doc_name = ''manual.pdf'',
     doc_text = replicate 1600 (CHR ''x'') @ nl @ nl
       @ ''Latency and throughput are measured for every release.'',
     uploadDate = 1700000000002\<rparr>"

definition long_store :: store where
  "long_store = [(''1700000000002-manual.pdf'', long_doc)]"



text \<open>
  Records of two versions of \<^verbatim>\<open>a.pdf\<close> and of two other files, and the event of
  \<^verbatim>\<open>fs.watch\<close> for a file that is gone.
\<close>

definition doc_a_first :: document_record where
  "doc_a_first = \<lparr>doc_id = ''1700000000000-a.pdf'', doc_name = ''a.pdf'',
     doc_text = ''first version'', uploadDate = 1700000000000\<rparr>"

definition doc_a_second :: document_record where
  "doc_a_second = \<lparr>doc_id = ''1700000000001-a.pdf'', doc_name = ''a.pdf'',
     doc_text = ''second version'', uploadDate = 1700000000001\<rparr>"

definition doc_aa :: document_record where
  "doc_aa = \<lparr>doc_id = ''1700000000000-aa.pdf'', doc_name = ''aa.pdf'',
     doc_text = ''another file'', uploadDate = 1700000000000\<rparr>"

definition doc_b :: document_record where
  "doc_b = \<lparr>doc_id = ''1700000000000-b.pdf'', doc_name = ''b.pdf'',
     doc_text = ''another file'', uploadDate = 1700000000000\<rparr>"

definition deletion_of :: "string \<Rightarrow> watch_event" where
  "deletion_of fname = \<lparr>eventType = ''rename'', filename = Some fname, present = False,
     still_present = False, event_now = 1700000000002, event_date = 1700000000002,
     event_extracted = ExtractFails\<rparr>"

section \<open>Evaluation on the inputs used below\<close>

lemma dec_1700000000000: "dec 1700000000000 = ''1700000000000''"
  by (simp add: dec.simps digit_def)

lemma dec_1700000000001: "dec 1700000000001 = ''1700000000001''"
  by (simp add: dec.simps digit_def)

lemma fileExt_a_pdf: "toLowerCase (extname ''a.pdf'') = ''.pdf''"
  by (simp add: extname_def toLowerCase_def lower_char_def)

lemma fileExt_scan_pdf: "toLowerCase (extname ''scan.pdf'') = ''.pdf''"
  by (simp add: extname_def toLowerCase_def lower_char_def)

lemma dropWhile_hd: "s \<noteq> [] \<Longrightarrow> \<not> P (hd s) \<Longrightarrow> dropWhile P s = s"
  by (cases s) auto

lemma trim_unchanged:
  "s \<noteq> [] \<Longrightarrow> \<not> is_space (hd s) \<Longrightarrow> \<not> is_space (last s) \<Longrightarrow> trim s = s"
  using dropWhile_hd [of s is_space] dropWhile_hd [of "rev s" is_space]
  by (simp add: trim_def hd_rev)

text \<open>
  Rounding on two scores that are equal as rationals: three matches in 74 characters and
  four matches in 299 characters both give \<open>41 / 3\<close>, and the doubles differ.
\<close>

lemma to_double_20_3: "to_double (20 / 3) = 7505999378950827 / 1125899906842624"
  by code_simp

lemma to_double_5_3: "to_double (5 / 3) = 7505999378950827 / 4503599627370496"
  by code_simp

lemma to_double_sum_7:
  "to_double (15387298726849195 / 1125899906842624) = 3846824681712299 / 281474976710656"
  by code_simp

lemma to_double_sum_12:
  "to_double (61549194907396779 / 4503599627370496) = 7693649363424597 / 562949953421312"
  by code_simp

lemma exact_tie_rounded_apart:
  "(7 + 500 / 75 :: rat) = 12 + 500 / 300"
  "to_double (12 + to_double (500 / 300)) < to_double (7 + to_double (500 / 75))"
  by (simp_all add: to_double_20_3 to_double_5_3 to_double_sum_7 to_double_sum_12)

section \<open>Ingestion: ids and stored text\<close>

text \<open>
  The id determines the clock reading and the file name: two ingestion events get the same
  id exactly when they have the same file name and read the same millisecond.
\<close>

lemma digit_code: "d < 10 \<Longrightarrow> of_char (digit d) = (48 + d :: nat)"
proof -
  assume "d < 10"
  then consider "d = 0" | "d = 1" | "d = 2" | "d = 3" | "d = 4" | "d = 5" | "d = 6"
    | "d = 7" | "d = 8" | "d = 9"
    by (auto simp: numeral_eq_Suc less_Suc_eq)
  then show ?thesis
    by cases (simp_all add: digit_def)
qed

lemma dec_value: "foldl (\<lambda>v c. 10 * v + (of_char c - 48)) 0 (dec n) = n"
proof (induction n rule: dec.induct)
  case (1 n)
  show ?case
  proof (cases "n < 10")
    case True
    then show ?thesis
      by (subst dec.simps) (simp add: digit_code)
  next
    case False
    then have "n mod 10 < 10" by simp
    with False 1 show ?thesis
      by (subst dec.simps) (simp add: digit_code)
  qed
qed

lemma dec_inj: "dec a = dec b \<Longrightarrow> a = b"
  by (metis dec_value)

lemma dec_no_dash: "CHR ''-'' \<notin> set (dec n)"
proof (induction n rule: dec.induct)
  case (1 n)
  have digit: "CHR ''-'' \<noteq> digit d" if "d < 10" for d
  proof
    assume "CHR ''-'' = digit d"
    then have "digit d = CHR ''-''" by simp
    then have "(of_char (digit d) :: nat) = 45" by simp
    with digit_code [OF that] show False by simp
  qed
  show ?case
  proof (cases "n < 10")
    case True
    then show ?thesis
      by (subst dec.simps) (simp add: digit)
  next
    case False
    then have "n mod 10 < 10" by simp
    with False 1 show ?thesis
      by (subst dec.simps) (simp add: digit)
  qed
qed

lemma takeWhile_upto: "c \<notin> set xs \<Longrightarrow> takeWhile (\<lambda>x. x \<noteq> c) (xs @ c # ys) = xs"
  by (induction xs) auto

lemma split_at_first:
  assumes "c \<notin> set xs" and "c \<notin> set xs'" and "xs @ c # ys = xs' @ c # ys'"
  shows "xs = xs' \<and> ys = ys'"
proof -
  have "takeWhile (\<lambda>x. x \<noteq> c) (xs @ c # ys) = xs"
    "takeWhile (\<lambda>x. x \<noteq> c) (xs' @ c # ys') = xs'"
    by (simp_all add: takeWhile_upto assms(1,2))
  with assms(3) have "xs = xs'" by simp
  with assms(3) show ?thesis by simp
qed

lemma docId_of_inj: "docId_of a n = docId_of b m \<longleftrightarrow> a = b \<and> n = m"
proof
  assume "docId_of a n = docId_of b m"
  then have "dec a @ CHR ''-'' # n = dec b @ CHR ''-'' # m"
    by (simp add: docId_of_def)
  from split_at_first [OF dec_no_dash dec_no_dash this] show "a = b \<and> n = m"
    by (auto dest: dec_inj)
qed simp

text \<open>
  C7. The ids of distinct ingestion events are unique, also when the same file name is
  ingested again at once. The code breaks this: the id is the millisecond clock and the
  file name, so two events for \<^verbatim>\<open>a.pdf\<close> in the same millisecond get the same id,
  and the second record replaces the first; one record is left of the two events, in the
  watcher's path and in the upload handler alike.
\<close>

theorem same_millisecond_same_id:
  "processDocument 1700000000000 1700000000000 ''a.pdf'' True (Extracted ''second version'')
     (processDocument 1700000000000 1700000000000 ''a.pdf'' True (Extracted ''first version'') [])
   = [(''1700000000000-a.pdf'',
       \<lparr>doc_id = ''1700000000000-a.pdf'', doc_name = ''a.pdf'', doc_text = ''second version'',
        uploadDate = 1700000000000\<rparr>)]
   \<and> upload
       [\<lparr>mimetype = mime_pdf, originalname = ''a.pdf'', extracted = Extracted ''first version'',
         id_time = 1700000000000, stored_date = 1700000000000\<rparr>,
        \<lparr>mimetype = mime_pdf, originalname = ''a.pdf'', extracted = Extracted ''second version'',
         id_time = 1700000000000, stored_date = 1700000000000\<rparr>] []
   = (200, [(''1700000000000-a.pdf'',
       \<lparr>doc_id = ''1700000000000-a.pdf'', doc_name = ''a.pdf'', doc_text = ''second version'',
        uploadDate = 1700000000000\<rparr>)])"
  by (simp add: processDocument_def docId_of_def dec_1700000000000 fileExt_a_pdf
        trim_unchanged is_space_def Let_def)

text \<open>
  What \<^const>\<open>processDocument\<close> stores for a supported file whose extraction is blank:
  the placeholder, which is never blank itself.
\<close>

lemma processDocument_blank:
  assumes "toLowerCase (extname fileName) \<in> {''.pdf'', ''.doc'', ''.docx''}"
    and "trim raw = []"
  shows "processDocument now date fileName True (Extracted raw) st =
           store_put (docId_of now fileName)
             \<lparr>doc_id = docId_of now fileName, doc_name = fileName,
              doc_text = placeholder fileName, uploadDate = date\<rparr> st"
  using assms by (auto simp: processDocument_def Let_def)

lemma placeholder_not_blank: "trim (placeholder fileName) \<noteq> []"
proof -
  have "dropWhile is_space (placeholder fileName) = placeholder fileName"
    by (simp add: placeholder_def is_space_def)
  moreover have "dropWhile is_space (rev (placeholder fileName)) = rev (placeholder fileName)"
    by (simp add: placeholder_def is_space_def)
  ultimately show ?thesis
    by (simp add: trim_def placeholder_def)
qed

text \<open>
  C9. A file whose extraction yields empty text is stored with the placeholder as its
  text. \<^const>\<open>processDocument\<close> does so; the upload handler does not: for the same file
  and the same empty extraction it stores the empty text itself, and a question to the
  store that holds this record alone is answered as if no document had been uploaded.
\<close>

theorem upload_stores_empty_text:
  "upload [\<lparr>mimetype = mime_pdf, originalname = ''scan.pdf'', extracted = Extracted [],
            id_time = 1700000000000, stored_date = 1700000000000\<rparr>] []
   = (200, [(''1700000000000-scan.pdf'',
        \<lparr>doc_id = ''1700000000000-scan.pdf'', doc_name = ''scan.pdf'', doc_text = [],
         uploadDate = 1700000000000\<rparr>)])
   \<and> processDocument 1700000000000 1700000000000 ''scan.pdf'' True (Extracted []) []
   = [(''1700000000000-scan.pdf'',
        \<lparr>doc_id = ''1700000000000-scan.pdf'', doc_name = ''scan.pdf'',
         doc_text = ''[Empty or unreadable document: scan.pdf]'',
         uploadDate = 1700000000000\<rparr>)]
   \<and> answer (chat True (\<lambda>system user. Completed ''never asked'')
        \<lparr>insert_history = InsertReturns, create_chat = Created ''chat-1''\<rparr>
        [(''1700000000000-scan.pdf'',
          \<lparr>doc_id = ''1700000000000-scan.pdf'', doc_name = ''scan.pdf'', doc_text = [],
           uploadDate = 1700000000000\<rparr>)]
        ''summarize the scan'' None)
     = no_documents_answer"
  by (simp add: processDocument_def docId_of_def dec_1700000000000 fileExt_scan_pdf
        placeholder_def Let_def chat_def precondition_failure_def targetDocumentName_def
        documentContext_def all_texts_def)

section \<open>The checks before the completion attempt\<close>

text \<open>
  C6. With an empty store every request ends at once with status 400 and the answer that
  no documents have been uploaded; nothing was sent to the completion service. (The
  handler itself never calls an extractor.)
\<close>

theorem empty_store_no_documents:
  "chat api_key completion_service d [] message chatId =
     \<lparr>status = 400, success = False, answer = no_documents_answer, chatId_out = None,
      completion_calls = []\<rparr>"
  by (simp add: chat_def precondition_failure_def)

section \<open>Mention parsing\<close>

lemma has_at_token_Cons:
  "rest \<noteq> [] \<Longrightarrow>
     has_at_token (c # rest) = ((c = CHR ''@'' \<and> \<not> is_space (hd rest)) \<or> has_at_token rest)"
  by (cases rest) auto

lemma takeWhile_run:
  assumes "\<forall>c\<in>set token. \<not> is_space c" and "after = [] \<or> is_space (hd after)"
  shows "takeWhile (\<lambda>x. \<not> is_space x) (token @ after) = token"
    and "dropWhile (\<lambda>x. \<not> is_space x) (token @ after) = after"
  using assms by (cases after; simp)+

lemma takeWhile_space_first:
  "rest \<noteq> [] \<Longrightarrow> is_space (hd rest) \<Longrightarrow> takeWhile (\<lambda>x. \<not> is_space x) rest = []"
  by (cases rest) auto

text \<open>
  The match is at the first \<^verbatim>\<open>@\<close> that starts a token, and the group is the whole run of
  characters other than white space after it.
\<close>

lemma mentionMatch_first:
  assumes "token \<noteq> []" and "\<forall>c\<in>set token. \<not> is_space c"
    and "after = [] \<or> is_space (hd after)"
  shows "\<not> has_at_token (before @ ''@'') \<Longrightarrow>
    mentionMatch (before @ CHR ''@'' # token @ after) = Some (before, token, after)"
proof (induction before)
  case Nil
  have "mentionMatch (CHR ''@'' # token @ after) = Some ([], token, after)"
    unfolding mentionMatch.simps takeWhile_run [OF assms(2,3)] using assms(1) by simp
  then show ?case by simp
next
  case (Cons c before)
  have rest: "before @ ''@'' \<noteq> []" by simp
  from Cons.prems have no: "\<not> (c = CHR ''@'' \<and> \<not> is_space (hd (before @ ''@'')))"
    and tl: "\<not> has_at_token (before @ ''@'')"
    using has_at_token_Cons [OF rest, of c] by auto
  have "c = CHR ''@'' \<Longrightarrow>
      takeWhile (\<lambda>x. \<not> is_space x) (before @ CHR ''@'' # token @ after) = []"
  proof -
    assume "c = CHR ''@''"
    with no have "is_space (hd (before @ ''@''))" by simp
    then have "is_space (hd (before @ CHR ''@'' # token @ after))"
      by (cases before) auto
    then show ?thesis by (intro takeWhile_space_first) auto
  qed
  with Cons.IH [OF tl] show ?case by auto
qed

lemma mentionMatch_no_at: "CHR ''@'' \<notin> set message \<Longrightarrow> mentionMatch message = None"
  by (induction message) auto

text \<open>
  C8. When the question is \<open>before @ ''@'' @ token @ after\<close>, where \<open>token\<close> is a
  non-empty run without white space that ends at white space or at the end of the
  question, and no \<^verbatim>\<open>@token\<close> begins earlier, then the target is \<open>token\<close> and the cleaned
  message is the question without \<^verbatim>\<open>@token\<close>, trimmed. When the question has no \<^verbatim>\<open>@\<close>,
  there is no target and the cleaned message is the question itself.
\<close>

theorem mention_parsing:
  "(message = before @ CHR ''@'' # token @ after \<and> token \<noteq> []
      \<and> (\<forall>c\<in>set token. \<not> is_space c) \<and> (after = [] \<or> is_space (hd after))
      \<and> \<not> has_at_token (before @ ''@'')
    \<longrightarrow> targetDocumentName message = Some token
        \<and> cleanedMessage message = trim (before @ after))
   \<and> (CHR ''@'' \<notin> set message
    \<longrightarrow> targetDocumentName message = None \<and> cleanedMessage message = message)"
  by (auto simp: targetDocumentName_def cleanedMessage_def mentionMatch_first mentionMatch_no_at)

theorem mention_parsing_witness:
  "targetDocumentName ''@report summarize'' = Some ''report''
   \<and> cleanedMessage ''@report summarize'' = ''summarize''
   \<and> targetDocumentName ''summarize the report'' = None
   \<and> cleanedMessage ''summarize the report'' = ''summarize the report''"
  using mention_parsing [of "''@report summarize''" "[]" "''report''" "'' summarize''"]
    mention_parsing [of "''summarize the report''"]
  by (simp add: is_space_def trim_def)

section \<open>Evaluation on the example store\<close>

lemma target_report: "mentionMatch ''@report explain latency'' = Some ([], ''report'', '' explain latency'')"
  by (simp add: is_space_def)

lemma keywords_explain_latency: "keywords_of ''explain latency'' = [''explain'', ''latency'']"
  by (simp add: keywords_of_def toLowerCase_def lower_char_def is_space_def char_of_eq_iff)

lemma paragraphs_report: "paragraphs ''The quarterly report covers revenue growth in detail.'' = [''The quarterly report covers revenue growth in detail.'']"
  by (simp add: paragraphs_def trim_unchanged is_space_def)

lemma paragraphs_report_v2: "paragraphs ''Latency and throughput are measured for every release.'' = [''Latency and throughput are measured for every release.'']"
  by (simp add: paragraphs_def trim_unchanged is_space_def)

lemma lower_report_text: "toLowerCase ''The quarterly report covers revenue growth in detail.'' = ''the quarterly report covers revenue growth in detail.''"
  by (simp add: toLowerCase_def lower_char_def char_of_eq_iff)

lemma lower_latency_text: "toLowerCase ''Latency and throughput are measured for every release.'' = ''latency and throughput are measured for every release.''"
  by (simp add: toLowerCase_def lower_char_def char_of_eq_iff)

lemma matches_report: "keywordMatches [''explain'', ''latency''] ''The quarterly report covers revenue growth in detail.'' = []"
  by (simp add: keywordMatches_def lower_report_text str_includes_def sublist_Cons_right)

lemma matches_report_v2: "keywordMatches [''explain'', ''latency''] ''Latency and throughput are measured for every release.'' = [''latency'']"
  by (simp add: keywordMatches_def lower_latency_text str_includes_def sublist_Cons_right)


lemma matchingParagraphs_two_reports: "matchingParagraphs two_reports ''explain latency'' =
   [\<lparr>ptext = ''Latency and throughput are measured for every release.'', score = 1,
     source = ''report_v2.docx''\<rparr>]"
  by (simp add: matchingParagraphs_def two_reports_def doc_report_def doc_report_v2_def keywords_explain_latency paragraphs_report paragraphs_report_v2
        List.map_filter_simps score_paragraph_def matches_report matches_report_v2 is_upper_def Let_def)

lemma topResults_two_reports: "topResults two_reports ''explain latency'' =
   [\<lparr>ptext = ''Latency and throughput are measured for every release.'', score = 1,
     source = ''report_v2.docx''\<rparr>]"
  by (simp add: topResults_def matchingParagraphs_two_reports)

lemma fallback_two_reports: "fallback_search two_reports ''explain latency'' =
   searchResponse ''explain latency''
     [\<lparr>ptext = ''Latency and throughput are measured for every release.'', score = 1,
       source = ''report_v2.docx''\<rparr>]"
  by (simp add: fallback_search_def topResults_two_reports)

lemma lower_names: "toLowerCase ''Report.pdf'' = ''report.pdf''" "toLowerCase ''report_v2.docx'' = ''report_v2.docx''"
  "toLowerCase ''report'' = ''report''"
  by (simp_all add: toLowerCase_def lower_char_def char_of_eq_iff)

lemma matchingDocs_two_reports: "matchingDocs two_reports ''report'' = two_reports"
  by (simp add: matchingDocs_def two_reports_def doc_report_def doc_report_v2_def lower_names
       str_includes_def sublist_Cons_right)

lemma context_two_reports: "documentContext two_reports (Some ''report'') = ''The quarterly report covers revenue growth in detail.''"
  by (simp add: documentContext_def matchingDocs_two_reports) (simp add: two_reports_def doc_report_def)

lemma checks_two_reports: "precondition_failure True two_reports ''@report explain latency'' = None"
  by (simp add: precondition_failure_def targetDocumentName_def target_report matchingDocIds_def
        matchingDocs_two_reports context_two_reports trim_unchanged is_space_def) (simp add: two_reports_def)

lemma cleaned_report_question: "cleanedMessage ''@report explain latency'' = ''explain latency''"
  by (simp add: cleanedMessage_def target_report trim_def is_space_def)

lemma target_budget: "mentionMatch ''@budget explain latency'' = Some ([], ''budget'', '' explain latency'')"
  by (simp add: is_space_def)

lemma lower_budget: "toLowerCase ''budget'' = ''budget''"
  by (simp add: toLowerCase_def lower_char_def char_of_eq_iff)

lemma in_map_filter: "r \<in> set (List.map_filter f xs) \<longleftrightarrow> (\<exists>x\<in>set xs. f x = Some r)"
  by (induction xs) (auto split: option.splits)

lemma topResults_props:
  "length (topResults st question) \<le> 5"
  "set (topResults st question) \<subseteq> set (matchingParagraphs st question)"
proof -
  show "length (topResults st question) \<le> 5"
    by (simp add: topResults_def)
  have "set (take 5 (sort_key (\<lambda>p. descending_key (machine_score (keywords_of question) (ptext p)))
              (matchingParagraphs st question)))
          \<subseteq> set (sort_key (\<lambda>p. descending_key (machine_score (keywords_of question) (ptext p)))
              (matchingParagraphs st question))"
    by (rule set_take_subset)
  then show "set (topResults st question) \<subseteq> set (matchingParagraphs st question)"
    by (simp add: topResults_def)
qed

section \<open>A mention that matches no document\<close>

text \<open>
  C2, as stated: every question with a mention that matches no stored name is answered
  with the not-found answer. On the empty store this fails: no name matches, and the answer
  is the one of the empty store.
\<close>

theorem mention_empty_store_counterexample:
  "targetDocumentName ''@report explain latency'' = Some ''report''
   \<and> matchingDocIds [] ''report'' = []
   \<and> answer (chat True (\<lambda>system user. NotOk)
        \<lparr>insert_history = InsertReturns, create_chat = Created ''chat-1''\<rparr>
        [] ''@report explain latency'' None) = no_documents_answer
   \<and> no_documents_answer \<noteq> not_found_answer ''report''"
  by (simp add: targetDocumentName_def target_report matchingDocIds_def matchingDocs_def chat_def
        precondition_failure_def no_documents_answer_def not_found_answer_def is_space_def)

text \<open>
  C2, amended: when the store is not empty and the question has a mention whose target is
  contained, lower case on both sides, in no stored name, the request ends with status 400
  and the not-found answer; nothing was sent to the completion service, and the texts of
  the store take no part in the outcome.
\<close>

theorem mention_not_found:
  assumes "st \<noteq> []"
    and "targetDocumentName message = Some target"
    and "\<forall>e\<in>set st. \<not> str_includes (toLowerCase (doc_name (snd e))) (toLowerCase target)"
  shows "chat api_key completion_service d st message chatId =
           \<lparr>status = 400, success = False, answer = not_found_answer target, chatId_out = None,
            completion_calls = []\<rparr>"
proof -
  from assms(3) have "matchingDocs st target = []"
    by (simp add: matchingDocs_def filter_empty_conv)
  with assms(1,2) show ?thesis
    by (simp add: chat_def precondition_failure_def matchingDocIds_def)
qed

theorem mention_not_found_witness:
  "chat True (\<lambda>system user. Completed ''never asked'')
     \<lparr>insert_history = InsertReturns, create_chat = Created ''chat-1''\<rparr>
     two_reports ''@budget explain latency'' None =
   \<lparr>status = 400, success = False, answer = not_found_answer ''budget'', chatId_out = None,
    completion_calls = []\<rparr>"
proof -
  have nonempty: "two_reports \<noteq> []"
    by (simp add: two_reports_def)
  have target: "targetDocumentName ''@budget explain latency'' = Some ''budget''"
    by (simp add: targetDocumentName_def is_space_def)
  have none: "\<forall>e\<in>set two_reports.
      \<not> str_includes (toLowerCase (doc_name (snd e))) (toLowerCase ''budget'')"
    by (simp add: two_reports_def doc_report_def doc_report_v2_def lower_names lower_budget
          str_includes_def sublist_Cons_right)
  show ?thesis
    by (rule mention_not_found [OF nonempty target none])
qed

section \<open>A completion that fails\<close>

text \<open>
  C4. When a request passes the checks and the completion call fails (it throws, the status
  is not a success, or the body is malformed), the response has status 200 and carries the
  answer of the fallback search over the store: the fixed no-match answer, or the answer
  composed of at most five scored paragraphs. In this model the search cannot throw, so
  the apology of the inner \<^verbatim>\<open>catch\<close> is never the answer.
\<close>

theorem completion_failure_falls_back:
  assumes "precondition_failure api_key st message = None"
    and "\<forall>content. completion_service systemMessage
           (userMessage (documentContext st (targetDocumentName message)) (cleanedMessage message))
         \<noteq> Completed content"
  shows "status (chat api_key completion_service d st message chatId) = 200
    \<and> success (chat api_key completion_service d st message chatId)
    \<and> answer (chat api_key completion_service d st message chatId)
        = fallback_search st (cleanedMessage message)
    \<and> (fallback_search st (cleanedMessage message) = no_match_answer
       \<or> topResults st (cleanedMessage message) \<noteq> []
         \<and> length (topResults st (cleanedMessage message)) \<le> 5
         \<and> set (topResults st (cleanedMessage message))
             \<subseteq> set (matchingParagraphs st (cleanedMessage message))
         \<and> fallback_search st (cleanedMessage message)
             = searchResponse (cleanedMessage message) (topResults st (cleanedMessage message)))"
proof -
  let ?r = "completion_service systemMessage
      (userMessage (documentContext st (targetDocumentName message)) (cleanedMessage message))"
  from assms(2) have "(case ?r of Completed content \<Rightarrow> trim content @ generated_note
      | _ \<Rightarrow> fallback_search st (cleanedMessage message))
    = fallback_search st (cleanedMessage message)"
    by (cases ?r) auto
  with assms(1) have "status (chat api_key completion_service d st message chatId) = 200"
    "success (chat api_key completion_service d st message chatId)"
    "answer (chat api_key completion_service d st message chatId)
        = fallback_search st (cleanedMessage message)"
    by (simp_all add: chat_def Let_def)
  moreover have "fallback_search st (cleanedMessage message) = no_match_answer
       \<or> topResults st (cleanedMessage message) \<noteq> []
         \<and> fallback_search st (cleanedMessage message)
             = searchResponse (cleanedMessage message) (topResults st (cleanedMessage message))"
    by (simp add: fallback_search_def)
  ultimately show ?thesis
    using topResults_props [of st "cleanedMessage message"] by blast
qed

theorem completion_failure_falls_back_witness:
  "precondition_failure True two_reports ''@report explain latency'' = None
   \<and> status (chat True (\<lambda>system user. FetchThrows)
        \<lparr>insert_history = InsertThrows, create_chat = CreateThrows\<rparr>
        two_reports ''@report explain latency'' None) = 200
   \<and> success (chat True (\<lambda>system user. FetchThrows)
        \<lparr>insert_history = InsertThrows, create_chat = CreateThrows\<rparr>
        two_reports ''@report explain latency'' None)
   \<and> answer (chat True (\<lambda>system user. FetchThrows)
        \<lparr>insert_history = InsertThrows, create_chat = CreateThrows\<rparr>
        two_reports ''@report explain latency'' None)
       = fallback_search two_reports ''explain latency''"
  using completion_failure_falls_back [of True two_reports "''@report explain latency''"
      "\<lambda>system user. FetchThrows"
      "\<lparr>insert_history = InsertThrows, create_chat = CreateThrows\<rparr>" None]
  by (simp add: checks_two_reports cleaned_report_question)

section \<open>A mention that matches several documents\<close>

text \<open>
  C5. When the target matches several names, the first matching record is the only source
  of the answer. The code does this for the context of the prompt, and breaks it in the
  fallback search, which goes through every stored document: with the completion failing,
  the question \<^verbatim>\<open>@report explain latency\<close> is answered from \<^verbatim>\<open>report_v2.docx\<close>, the second
  match, and not from \<^verbatim>\<open>Report.pdf\<close>, the first.
\<close>

theorem fallback_ignores_target:
  "matchingDocIds two_reports ''report'' = [''1700000000000-Report.pdf'', ''1700000000001-report_v2.docx'']
   \<and> documentContext two_reports (Some ''report'') = doc_text doc_report
   \<and> answer (chat True (\<lambda>system user. NotOk)
         \<lparr>insert_history = InsertReturns, create_chat = Created ''chat-1''\<rparr>
         two_reports ''@report explain latency'' None)
     = searchResponse ''explain latency''
         [\<lparr>ptext = doc_text doc_report_v2, score = 1, source = doc_name doc_report_v2\<rparr>]"
  by (simp add: chat_def checks_two_reports cleaned_report_question fallback_two_reports matchingDocIds_def matchingDocs_two_reports context_two_reports Let_def)
     (simp add: two_reports_def doc_report_def doc_report_v2_def)

section \<open>The context of the prompt and the texts of the search\<close>

lemma userMessage_take: "userMessage context question = userMessage (take 1500 context) question"
  by (simp add: userMessage_def)

lemma userMessage_length:
  "length (userMessage context question) = min (length context) 1500 + length (userMessage [] question)"
  by (simp add: userMessage_def)

lemma scored_paragraph_found:
  assumes "e \<in> set st" and "p \<in> set (paragraphs (doc_text (snd e)))"
    and "keywordMatches (keywords_of question) p \<noteq> []"
  shows "\<exists>r\<in>set (matchingParagraphs st question). ptext r = p \<and> source r = doc_name (snd e)"
proof -
  from assms(3) obtain r where r: "score_paragraph (keywords_of question) (doc_name (snd e)) p = Some r"
    "ptext r = p" "source r = doc_name (snd e)"
    by (auto simp: score_paragraph_def Let_def)
  with assms(2) have "r \<in> set (List.map_filter (score_paragraph (keywords_of question) (doc_name (snd e)))
      (paragraphs (doc_text (snd e))))"
    by (auto simp: in_map_filter)
  with assms(1) have "r \<in> set (matchingParagraphs st question)"
    by (auto simp: matchingParagraphs_def)
  with r show ?thesis by blast
qed

lemma split_blank_lines_first:
  "CHR 0x0A \<notin> set xs \<Longrightarrow>
     split_blank_lines acc (xs @ CHR 0x0A # CHR 0x0A # rest) =
       (rev acc @ xs) # split_blank_lines [] (dropWhile (\<lambda>x. x = CHR 0x0A) rest)"
proof (induction xs arbitrary: acc)
  case Nil
  show ?case by simp
next
  case (Cons c xs)
  then show ?case by (cases xs) auto
qed

lemma long_paragraphs:
  "paragraphs (doc_text long_doc) =
     [replicate 1600 (CHR ''x''), ''Latency and throughput are measured for every release.'']"
proof -
  have "split_blank_lines [] (doc_text long_doc) =
      [replicate 1600 (CHR ''x''), ''Latency and throughput are measured for every release.'']"
    using split_blank_lines_first [of "replicate 1600 (CHR ''x'')" "[]"
      "''Latency and throughput are measured for every release.''"]
    by (simp add: long_doc_def nl_def)
  moreover have "trim (replicate 1600 (CHR ''x'')) = replicate 1600 (CHR ''x'')"
    by (rule trim_unchanged) (simp_all add: is_space_def)
  ultimately show ?thesis
    by (simp add: paragraphs_def trim_unchanged is_space_def)
qed

lemma long_context: "documentContext long_store None = doc_text long_doc"
  by (simp add: documentContext_def all_texts_def long_store_def)

lemma checks_long_store: "precondition_failure True long_store ''explain latency'' = None"
proof -
  have "trim (doc_text long_doc) = doc_text long_doc"
    by (rule trim_unchanged) (simp_all add: long_doc_def is_space_def nl_def)
  moreover have "doc_text long_doc \<noteq> []"
    by (simp add: long_doc_def nl_def)
  ultimately show ?thesis
    by (simp add: precondition_failure_def targetDocumentName_def mentionMatch_no_at
          long_context) (simp add: long_store_def)
qed

lemma sort_key_Nil: "sort_key f xs = [] \<longleftrightarrow> xs = []"
  by (metis length_0_conv length_sort)

lemma topResults_Nil: "topResults st question = [] \<longleftrightarrow> matchingParagraphs st question = []"
  by (simp add: topResults_def take_eq_Nil sort_key_Nil)

lemma topResults_all:
  "length (matchingParagraphs st question) \<le> 5 \<Longrightarrow>
     set (topResults st question) = set (matchingParagraphs st question)"
  by (simp add: topResults_def)

lemma searchResponse_not_no_match: "searchResponse question results \<noteq> no_match_answer"
  by (simp add: searchResponse_def no_match_answer_def)

lemma fallback_search_cases:
  "fallback_search st question =
     (if matchingParagraphs st question = [] then no_match_answer
      else searchResponse question (topResults st question))"
  by (simp add: fallback_search_def topResults_Nil)

lemma filler_no_match:
  "keywordMatches [''explain'', ''latency''] (replicate 1600 (CHR ''x'')) = []"
proof -
  have lower: "toLowerCase (replicate 1600 (CHR ''x'')) = replicate 1600 (CHR ''x'')"
    by (simp add: toLowerCase_def lower_char_def)
  have "\<not> sublist ''explain'' (replicate 1600 (CHR ''x''))"
    "\<not> sublist ''latency'' (replicate 1600 (CHR ''x''))"
    using set_mono_sublist [of "''explain''" "replicate 1600 (CHR ''x'')"]
      set_mono_sublist [of "''latency''" "replicate 1600 (CHR ''x'')"]
    by auto
  then show ?thesis
    by (simp add: keywordMatches_def lower str_includes_def)
qed

lemma matchingParagraphs_long_store:
  "matchingParagraphs long_store ''explain latency'' =
     [\<lparr>ptext = ''Latency and throughput are measured for every release.'', score = 1,
       source = ''manual.pdf''\<rparr>]"
  unfolding matchingParagraphs_def keywords_explain_latency
  by (simp add: long_store_def long_paragraphs score_paragraph_def filler_no_match
        matches_report_v2 is_upper_def Let_def)
     (simp add: long_doc_def)

text \<open>
  C10. When a request passes the checks, one prompt is sent to the completion service, and
  it is built from the first 1500 characters of the context only: it is the prompt of the
  truncated context, and its length is that of the prompt with no context plus at most
  1500. When the completion fails, the answer of the request comes from the whole text of
  every stored document: a paragraph with a keyword match anywhere in any document makes
  the answer the composed one, and when at most five paragraphs of the store match, that
  paragraph is among those the answer is composed of; without any match in the store the
  answer is the fixed one.
\<close>

theorem prompt_truncated_search_complete:
  assumes "precondition_failure api_key st message = None"
  shows "completion_calls (chat api_key completion_service d st message chatId)
      = [(systemMessage,
          userMessage (take 1500 (documentContext st (targetDocumentName message)))
            (cleanedMessage message))]
    \<and> length (userMessage (documentContext st (targetDocumentName message)) (cleanedMessage message))
      = min (length (documentContext st (targetDocumentName message))) 1500
        + length (userMessage [] (cleanedMessage message))
    \<and> ((\<forall>content. completion_service systemMessage
           (userMessage (documentContext st (targetDocumentName message)) (cleanedMessage message))
         \<noteq> Completed content) \<longrightarrow>
        answer (chat api_key completion_service d st message chatId)
          = (if matchingParagraphs st (cleanedMessage message) = [] then no_match_answer
             else searchResponse (cleanedMessage message) (topResults st (cleanedMessage message)))
        \<and> (\<forall>e\<in>set st. \<forall>p\<in>set (paragraphs (doc_text (snd e))).
              keywordMatches (keywords_of (cleanedMessage message)) p \<noteq> [] \<longrightarrow>
              answer (chat api_key completion_service d st message chatId)
                = searchResponse (cleanedMessage message) (topResults st (cleanedMessage message))
              \<and> answer (chat api_key completion_service d st message chatId) \<noteq> no_match_answer
              \<and> (length (matchingParagraphs st (cleanedMessage message)) \<le> 5 \<longrightarrow>
                   (\<exists>t\<in>set (topResults st (cleanedMessage message)).
                      ptext t = p \<and> source t = doc_name (snd e)))))"
proof -
  let ?q = "cleanedMessage message"
  let ?ctx = "documentContext st (targetDocumentName message)"
  let ?r = "chat api_key completion_service d st message chatId"
  have calls: "completion_calls ?r = [(systemMessage, userMessage (take 1500 ?ctx) ?q)]"
    using assms userMessage_take [of ?ctx ?q] by (simp add: chat_def Let_def)
  have len: "length (userMessage ?ctx ?q) = min (length ?ctx) 1500 + length (userMessage [] ?q)"
    by (rule userMessage_length)
  have search: "answer ?r = (if matchingParagraphs st ?q = [] then no_match_answer
             else searchResponse ?q (topResults st ?q))
        \<and> (\<forall>e\<in>set st. \<forall>p\<in>set (paragraphs (doc_text (snd e))).
              keywordMatches (keywords_of ?q) p \<noteq> [] \<longrightarrow>
              answer ?r = searchResponse ?q (topResults st ?q)
              \<and> answer ?r \<noteq> no_match_answer
              \<and> (length (matchingParagraphs st ?q) \<le> 5 \<longrightarrow>
                   (\<exists>t\<in>set (topResults st ?q). ptext t = p \<and> source t = doc_name (snd e))))"
    if failed: "\<forall>content. completion_service systemMessage (userMessage ?ctx ?q) \<noteq> Completed content"
  proof -
    from failed have "(case completion_service systemMessage (userMessage ?ctx ?q) of
          Completed content \<Rightarrow> trim content @ generated_note
        | _ \<Rightarrow> fallback_search st ?q) = fallback_search st ?q"
      by (cases "completion_service systemMessage (userMessage ?ctx ?q)") auto
    with assms have "answer ?r = fallback_search st ?q"
      by (simp add: chat_def Let_def)
    then have ans: "answer ?r = (if matchingParagraphs st ?q = [] then no_match_answer
             else searchResponse ?q (topResults st ?q))"
      by (simp add: fallback_search_cases)
    have "answer ?r = searchResponse ?q (topResults st ?q)
        \<and> answer ?r \<noteq> no_match_answer
        \<and> (length (matchingParagraphs st ?q) \<le> 5 \<longrightarrow>
             (\<exists>t\<in>set (topResults st ?q). ptext t = p \<and> source t = doc_name (snd e)))"
      if "e \<in> set st" "p \<in> set (paragraphs (doc_text (snd e)))"
        "keywordMatches (keywords_of ?q) p \<noteq> []" for e p
    proof -
      from scored_paragraph_found [OF that]
      obtain t where t: "t \<in> set (matchingParagraphs st ?q)" "ptext t = p"
        "source t = doc_name (snd e)"
        by blast
      then have "matchingParagraphs st ?q \<noteq> []" by auto
      with ans have "answer ?r = searchResponse ?q (topResults st ?q)" by simp
      moreover from this have "answer ?r \<noteq> no_match_answer"
        by (simp add: searchResponse_not_no_match)
      moreover have "\<exists>t\<in>set (topResults st ?q). ptext t = p \<and> source t = doc_name (snd e)"
        if "length (matchingParagraphs st ?q) \<le> 5"
        using t topResults_all [OF that] by blast
      ultimately show ?thesis by blast
    qed
    with ans show ?thesis by blast
  qed
  from calls len search show ?thesis by blast
qed

theorem prompt_truncated_search_complete_witness:
  "precondition_failure True long_store ''explain latency'' = None
   \<and> completion_calls (chat True (\<lambda>system user. NotOk)
        \<lparr>insert_history = InsertReturns, create_chat = Created ''chat-1''\<rparr>
        long_store ''explain latency'' None)
     = [(systemMessage, userMessage (replicate 1500 (CHR ''x'')) ''explain latency'')]
   \<and> answer (chat True (\<lambda>system user. NotOk)
        \<lparr>insert_history = InsertReturns, create_chat = Created ''chat-1''\<rparr>
        long_store ''explain latency'' None)
     = searchResponse ''explain latency''
         [\<lparr>ptext = ''Latency and throughput are measured for every release.'', score = 1,
           source = ''manual.pdf''\<rparr>]"
proof -
  have target: "targetDocumentName ''explain latency'' = None"
    by (simp add: targetDocumentName_def mentionMatch_no_at)
  have cleaned: "cleanedMessage ''explain latency'' = ''explain latency''"
    by (simp add: cleanedMessage_def mentionMatch_no_at)
  have first1500: "take 1500 (doc_text long_doc) = replicate 1500 (CHR ''x'')"
    by (simp add: long_doc_def)
  have results: "topResults long_store ''explain latency'' =
     [\<lparr>ptext = ''Latency and throughput are measured for every release.'', score = 1,
       source = ''manual.pdf''\<rparr>]"
    by (simp add: topResults_def matchingParagraphs_long_store)
  note inst = prompt_truncated_search_complete [OF checks_long_store,
      of "\<lambda>system user. NotOk"
         "\<lparr>insert_history = InsertReturns, create_chat = Created ''chat-1''\<rparr>" None]
  from inst have calls: "completion_calls (chat True (\<lambda>system user. NotOk)
        \<lparr>insert_history = InsertReturns, create_chat = Created ''chat-1''\<rparr>
        long_store ''explain latency'' None)
     = [(systemMessage, userMessage (replicate 1500 (CHR ''x'')) ''explain latency'')]"
    by (simp add: target cleaned long_context first1500)
  from inst have "answer (chat True (\<lambda>system user. NotOk)
        \<lparr>insert_history = InsertReturns, create_chat = Created ''chat-1''\<rparr>
        long_store ''explain latency'' None)
     = (if matchingParagraphs long_store ''explain latency'' = [] then no_match_answer
        else searchResponse ''explain latency'' (topResults long_store ''explain latency''))"
    by (simp only: cleaned) simp
  then have "answer (chat True (\<lambda>system user. NotOk)
        \<lparr>insert_history = InsertReturns, create_chat = Created ''chat-1''\<rparr>
        long_store ''explain latency'' None)
     = searchResponse ''explain latency''
         [\<lparr>ptext = ''Latency and throughput are measured for every release.'', score = 1,
           source = ''manual.pdf''\<rparr>]"
    unfolding results by (simp add: matchingParagraphs_long_store)
  with calls checks_long_store show ?thesis by simp
qed

section \<open>The scores of the fallback search\<close>


























section \<open>Deletion of a watched file\<close>

text \<open>The store after the file \<^verbatim>\<open>a.pdf\<close> was ingested twice, one millisecond apart.\<close>

lemma two_versions_ingested:
  "processDocument 1700000000001 1700000000001 ''a.pdf'' True (Extracted ''second version'')
     (processDocument 1700000000000 1700000000000 ''a.pdf'' True (Extracted ''first version'') [])
   = [(''1700000000000-a.pdf'', doc_a_first), (''1700000000001-a.pdf'', doc_a_second)]"
  by (simp add: processDocument_def docId_of_def dec_1700000000000 dec_1700000000001
        fileExt_a_pdf trim_unchanged is_space_def Let_def doc_a_first_def doc_a_second_def)

lemma find_map_fst:
  "find P (map f xs) = map_option f (find (\<lambda>x. P (f x)) xs)"
  by (induction xs) auto

lemma store_delete_remove1:
  "distinct (map fst st) \<Longrightarrow> e \<in> set st \<Longrightarrow> store_delete (fst e) st = remove1 e st"
proof (induction st)
  case Nil
  then show ?case by simp
next
  case (Cons x st)
  show ?case
  proof (cases "x = e")
    case True
    with Cons.prems(1) have "\<forall>y\<in>set st. fst y \<noteq> fst e"
      by (auto simp: image_iff)
    then have "filter (\<lambda>y. fst y \<noteq> fst e) st = st"
      by (simp add: filter_id_conv)
    with True show ?thesis by (simp add: store_delete_def)
  next
    case False
    with Cons.prems have "e \<in> set st" "fst x \<noteq> fst e"
      by (auto simp: image_iff)
    with Cons.IH Cons.prems(1) False show ?thesis
      by (simp add: store_delete_def)
  qed
qed

lemma removeByFileName_first:
  assumes "distinct (map fst st)"
    and "\<forall>e\<in>set st. str_includes (fst e) fname \<longleftrightarrow> doc_name (snd e) = fname"
  shows "removeByFileName fname st =
           (case find (\<lambda>e. doc_name (snd e) = fname) st of
              None \<Rightarrow> st
            | Some e \<Rightarrow> remove1 e st)"
proof -
  have same: "find (\<lambda>e. str_includes (fst e) fname) st = find (\<lambda>e. doc_name (snd e) = fname) st"
    using assms(2) by (intro find_cong) auto
  show ?thesis
  proof (cases "find (\<lambda>e. doc_name (snd e) = fname) st")
    case None
    then show ?thesis
      by (simp add: removeByFileName_def find_map_fst same)
  next
    case (Some e)
    then have "e \<in> set st"
      by (auto simp: find_Some_iff)
    with Some assms(1) show ?thesis
      by (simp add: removeByFileName_def find_map_fst same store_delete_remove1)
  qed
qed

lemma removeByFileName_at_most_one:
  assumes "distinct (map fst st)"
  shows "removeByFileName fname st = st \<or> (\<exists>e\<in>set st. removeByFileName fname st = remove1 e st)"
proof (cases "find (\<lambda>e. str_includes (fst e) fname) st")
  case None
  then show ?thesis
    by (simp add: removeByFileName_def find_map_fst)
next
  case (Some e)
  then have "e \<in> set st"
    by (auto simp: find_Some_iff)
  with Some assms show ?thesis
    by (auto simp: removeByFileName_def find_map_fst store_delete_remove1)
qed

text \<open>
  C1, as stated: the deletion event removes the most recent record of the file name and no
  record of another file name. The code removes the first record, in the order of the
  store, whose id contains the file name: of two records of \<^verbatim>\<open>a.pdf\<close> the older one goes
  and the most recent one stays; and with a record of \<^verbatim>\<open>aa.pdf\<close> before it, the deletion
  of \<^verbatim>\<open>a.pdf\<close> removes the record of \<^verbatim>\<open>aa.pdf\<close>.
\<close>

theorem deletion_counterexample:
  "watch_callback (deletion_of ''a.pdf'')
     [(''1700000000000-a.pdf'', doc_a_first), (''1700000000001-a.pdf'', doc_a_second)]
   = [(''1700000000001-a.pdf'', doc_a_second)]
   \<and> watch_callback (deletion_of ''a.pdf'')
     [(''1700000000000-aa.pdf'', doc_aa), (''1700000000001-a.pdf'', doc_a_second)]
   = [(''1700000000001-a.pdf'', doc_a_second)]"
  by (simp add: watch_callback_def deletion_of_def removeByFileName_def store_delete_def
        str_includes_def sublist_Cons_right)

text \<open>
  C1, amended: for every store (its keys are distinct, as the keys of an object are) the
  deletion event removes at most one record and leaves the others in place, in their
  order. When the ids that contain the file name are exactly the ids of the records of
  that file name, the record removed is the first record of that file name in the order of
  the store, the oldest one; every record of another file name stays; and a store without
  a record of that file name is unchanged.
\<close>

theorem deletion_removes_oldest:
  assumes "eventType ev = ''rename''" and "filename ev = Some fname" and "fname \<noteq> []"
    and "\<not> present ev"
    and "distinct (map fst st)"
  shows "(watch_callback ev st = st \<or> (\<exists>e\<in>set st. watch_callback ev st = remove1 e st))
    \<and> ((\<forall>e\<in>set st. str_includes (fst e) fname \<longleftrightarrow> doc_name (snd e) = fname) \<longrightarrow>
         watch_callback ev st =
           (case find (\<lambda>e. doc_name (snd e) = fname) st of
              None \<Rightarrow> st
            | Some e \<Rightarrow> remove1 e st)
         \<and> (\<forall>e\<in>set st. doc_name (snd e) \<noteq> fname \<longrightarrow> e \<in> set (watch_callback ev st)))"
proof -
  have cb: "watch_callback ev st = removeByFileName fname st"
    using assms(1-4) by (simp add: watch_callback_def)
  have one: "watch_callback ev st = st \<or> (\<exists>e\<in>set st. watch_callback ev st = remove1 e st)"
    unfolding cb by (rule removeByFileName_at_most_one [OF assms(5)])
  have oldest: "watch_callback ev st =
           (case find (\<lambda>e. doc_name (snd e) = fname) st of
              None \<Rightarrow> st
            | Some e \<Rightarrow> remove1 e st)
         \<and> (\<forall>e\<in>set st. doc_name (snd e) \<noteq> fname \<longrightarrow> e \<in> set (watch_callback ev st))"
    if ids: "\<forall>e\<in>set st. str_includes (fst e) fname \<longleftrightarrow> doc_name (snd e) = fname"
  proof -
    have first: "watch_callback ev st =
           (case find (\<lambda>e. doc_name (snd e) = fname) st of
              None \<Rightarrow> st
            | Some e \<Rightarrow> remove1 e st)"
      unfolding cb by (rule removeByFileName_first [OF assms(5) ids])
    have "e \<in> set (watch_callback ev st)" if "e \<in> set st" "doc_name (snd e) \<noteq> fname" for e
    proof (cases "find (\<lambda>e. doc_name (snd e) = fname) st")
      case None
      with first that show ?thesis by simp
    next
      case (Some x)
      then have "doc_name (snd x) = fname"
        by (auto simp: find_Some_iff)
      with that have "e \<noteq> x" by auto
      with first Some that show ?thesis by simp
    qed
    with first show ?thesis by blast
  qed
  from one oldest show ?thesis by blast
qed

theorem deletion_removes_oldest_witness:
  "watch_callback (deletion_of ''a.pdf'')
     [(''1700000000000-a.pdf'', doc_a_first), (''1700000000000-b.pdf'', doc_b),
      (''1700000000001-a.pdf'', doc_a_second)]
   = [(''1700000000000-b.pdf'', doc_b), (''1700000000001-a.pdf'', doc_a_second)]"
proof -
  let ?st = "[(''1700000000000-a.pdf'', doc_a_first), (''1700000000000-b.pdf'', doc_b),
      (''1700000000001-a.pdf'', doc_a_second)]"
  have ev: "eventType (deletion_of ''a.pdf'') = ''rename''"
    "filename (deletion_of ''a.pdf'') = Some ''a.pdf''" "''a.pdf'' \<noteq> []"
    "\<not> present (deletion_of ''a.pdf'')"
    by (simp_all add: deletion_of_def)
  have keys: "distinct (map fst ?st)"
    by simp
  have ids: "\<forall>e\<in>set ?st. str_includes (fst e) ''a.pdf'' \<longleftrightarrow> doc_name (snd e) = ''a.pdf''"
    by (simp add: str_includes_def sublist_Cons_right doc_a_first_def doc_b_def doc_a_second_def)
  have first: "find (\<lambda>e. doc_name (snd e) = ''a.pdf'') ?st = Some (''1700000000000-a.pdf'', doc_a_first)"
    by (simp add: doc_a_first_def)
  from deletion_removes_oldest [OF ev keys] ids
  have "watch_callback (deletion_of ''a.pdf'') ?st =
      (case find (\<lambda>e. doc_name (snd e) = ''a.pdf'') ?st of None \<Rightarrow> ?st | Some e \<Rightarrow> remove1 e ?st)"
    by blast
  then show ?thesis
    unfolding first by simp
qed

end
